theory Spec2Isabelle
  imports Main
begin

section \<open>Entity store: the four tables of the first migration\<close>

text \<open>
  UUIDs and timestamps are opaque values that are only compared; they are modelled as
  natural numbers. SQL \<open>text\<close> columns that the migrations compute on (user names) are
  HOL strings; text that comes from the browser (message content) is a list of UTF-16
  code units, because the client trims it with JavaScript's \<open>String.prototype.trim\<close>.
  A nullable column is an \<open>option\<close>.
\<close>

type_synonym uuid = nat
type_synonym timestamptz = nat
type_synonym jsstring = "nat list"

datatype conversation_type = Dm | Group

datatype message_type = TextMsg | ImageMsg | FileMsg

record profile =
  profile_id :: uuid
  username :: string
  display_name :: "string option"
  avatar_url :: "string option"
  status :: "string option"
  last_seen :: "timestamptz option"
  profile_created_at :: timestamptz
  profile_updated_at :: timestamptz

record conversation =
  c_id :: uuid
  c_name :: "string option"
  c_type :: conversation_type
  created_by :: "uuid option"
  c_created_at :: timestamptz
  c_updated_at :: timestamptz

record participant =
  cp_id :: uuid
  cp_conversation_id :: uuid
  cp_user_id :: uuid
  joined_at :: timestamptz

record message =
  m_id :: uuid
  m_conversation_id :: uuid
  sender_id :: uuid
  content :: jsstring
  m_type :: "message_type option"
  m_created_at :: timestamptz
  edited_at :: "timestamptz option"
  is_deleted :: "bool option"

record db =
  profiles :: "profile list"
  conversations :: "conversation list"
  conversation_participants :: "participant list"
  messages :: "message list"

text \<open>
  The membership relation the specification speaks of: principal \<open>u\<close> is a Participant of
  conversation \<open>c\<close> when the participants table holds a row for the pair. Likewise
  \<open>u\<close> is the creator of \<open>c\<close> when the conversations table holds \<open>c\<close> with
  \<open>created_by = u\<close>.
\<close>

definition is_participant :: "db \<Rightarrow> uuid \<Rightarrow> uuid \<Rightarrow> bool" where
  "is_participant d u c =
     list_ex (\<lambda>cp. cp_conversation_id cp = c \<and> cp_user_id cp = u) (conversation_participants d)"

definition is_creator :: "db \<Rightarrow> uuid \<Rightarrow> uuid \<Rightarrow> bool" where
  "is_creator d u c =
     list_ex (\<lambda>cv. c_id cv = c \<and> created_by cv = Some u) (conversations d)"

section \<open>Row-level security: policies, helper functions and their evaluation\<close>

text \<open>
  A policy expression is evaluated for the acting principal (\<open>auth.uid()\<close>) on a row.
  A sub-select written inside a policy runs with the privileges of the caller, so the table
  it reads is itself filtered by that table's SELECT policies; the body of a
  \<open>SECURITY DEFINER\<close> function reads the stored table as it is. The \<open>scope\<close> of a policy
  holds both views: the two tables that policies of this repository sub-select from, as a
  sub-select sees them (\<open>None\<close> while their own policies have not been expanded), and the
  stored database for the definer functions.

  Policies are expanded before any row is looked at: a policy first resolves the relations
  of its sub-selects (which may fail to resolve) and then yields the predicate on rows.

  The acting principal is an authenticated user: \<open>auth.uid()\<close> is its id and its role is
  \<open>authenticated\<close>, to which the policies of every migration apply (those of
  \<open>graceful_king\<close> are declared \<open>TO authenticated\<close>, the others for all roles). The owner
  of the tables, who is not subject to the policies, is the role the definer functions run
  as.
\<close>

record scope =
  visible_participants :: "participant list option"
  visible_conversations :: "conversation list option"
  definer_db :: db

type_synonym 'r policy = "scope \<Rightarrow> uuid \<Rightarrow> ('r \<Rightarrow> bool) option"

datatype command = SELECT | INSERT | UPDATE

type_synonym 'r table_policies = "(string \<times> command \<times> 'r policy) list"

record schema =
  on_profiles :: "profile table_policies"
  on_conversations :: "conversation table_policies"
  on_conversation_participants :: "participant table_policies"
  on_messages :: "message table_policies"

definition create_policy :: "string \<Rightarrow> command \<Rightarrow> 'r policy \<Rightarrow> 'r table_policies \<Rightarrow> 'r table_policies" where
  "create_policy nm cmd p ps = ps @ [(nm, cmd, p)]"

definition drop_policy_if_exists :: "string \<Rightarrow> 'r table_policies \<Rightarrow> 'r table_policies" where
  "drop_policy_if_exists nm ps = filter (\<lambda>p. fst p \<noteq> nm) ps"

definition policies_for :: "command \<Rightarrow> 'r table_policies \<Rightarrow> 'r policy list" where
  "policies_for cmd ps = map (\<lambda>p. snd (snd p)) (filter (\<lambda>p. fst (snd p) = cmd) ps)"

text \<open>
  All policies of a table for one command are permissive: a row passes when some policy
  accepts it, and no row passes when the table has no policy for the command.
\<close>

definition permissive :: "'r policy list \<Rightarrow> scope \<Rightarrow> uuid \<Rightarrow> ('r \<Rightarrow> bool) option" where
  "permissive ps sc u = map_option (\<lambda>fs r. list_ex (\<lambda>f. f r) fs) (those (map (\<lambda>p. p sc u) ps))"

subsection \<open>The first migration (tables, policies, triggers)\<close>

text \<open>
  The policies of the first migration, in its order. The three on profiles, "Users can
  create conversations" and "Users can update their own messages" keep the migration's
  names. The others are renamed, because later migrations create policies of the same name:
  \<^item> \<open>init_view_conversations\<close> is "Users can view conversations they participate in",
  \<^item> \<open>init_view_participants\<close> is "Users can view participants of their conversations",
  \<^item> \<open>init_add_participants\<close> is "Users can add participants to conversations they created",
  \<^item> \<open>init_view_messages\<close> is "Users can view messages from their conversations",
  \<^item> \<open>init_send_messages\<close> is "Users can send messages to their conversations".

  \<open>x IN (SELECT col FROM t WHERE cond)\<close> is membership of \<open>x\<close> in the column of the
  rows of \<open>t\<close>, as the sub-select sees \<open>t\<close>, that satisfy \<open>cond\<close>.
\<close>

definition users_can_view_all_profiles :: "profile policy" where
  "users_can_view_all_profiles sc u = Some (\<lambda>r. True)"

definition users_can_update_their_own_profile :: "profile policy" where
  "users_can_update_their_own_profile sc u = Some (\<lambda>r. u = profile_id r)"

definition users_can_insert_their_own_profile :: "profile policy" where
  "users_can_insert_their_own_profile sc u = Some (\<lambda>r. u = profile_id r)"

definition init_view_conversations :: "conversation policy" where
  "init_view_conversations sc u =
     map_option
       (\<lambda>cps r. c_id r \<in> set (map cp_conversation_id (filter (\<lambda>cp. cp_user_id cp = u) cps)))
       (visible_participants sc)"

definition users_can_create_conversations :: "conversation policy" where
  "users_can_create_conversations sc u = Some (\<lambda>r. Some u = created_by r)"

definition init_view_participants :: "participant policy" where
  "init_view_participants sc u =
     map_option
       (\<lambda>cps r. cp_conversation_id r \<in> set (map cp_conversation_id (filter (\<lambda>cp. cp_user_id cp = u) cps)))
       (visible_participants sc)"

definition init_add_participants :: "participant policy" where
  "init_add_participants sc u =
     map_option
       (\<lambda>cs r. cp_conversation_id r \<in> set (map c_id (filter (\<lambda>c. created_by c = Some u) cs))
                \<or> cp_user_id r = u)
       (visible_conversations sc)"

definition init_view_messages :: "message policy" where
  "init_view_messages sc u =
     map_option
       (\<lambda>cps r. m_conversation_id r \<in> set (map cp_conversation_id (filter (\<lambda>cp. cp_user_id cp = u) cps)))
       (visible_participants sc)"

definition init_send_messages :: "message policy" where
  "init_send_messages sc u =
     map_option
       (\<lambda>cps r. u = sender_id r \<and>
                m_conversation_id r \<in> set (map cp_conversation_id (filter (\<lambda>cp. cp_user_id cp = u) cps)))
       (visible_participants sc)"

definition users_can_update_their_own_messages :: "message policy" where
  "users_can_update_their_own_messages sc u = Some (\<lambda>r. u = sender_id r)"

definition initial_schema :: schema where
  "initial_schema =
     \<lparr> on_profiles =
         create_policy ''Users can insert their own profile'' INSERT users_can_insert_their_own_profile
           (create_policy ''Users can update their own profile'' UPDATE users_can_update_their_own_profile
             (create_policy ''Users can view all profiles'' SELECT users_can_view_all_profiles [])),
       on_conversations =
         create_policy ''Users can create conversations'' INSERT users_can_create_conversations
           (create_policy ''Users can view conversations they participate in'' SELECT init_view_conversations []),
       on_conversation_participants =
         create_policy ''Users can add participants to conversations they created'' INSERT init_add_participants
           (create_policy ''Users can view participants of their conversations'' SELECT init_view_participants []),
       on_messages =
         create_policy ''Users can update their own messages'' UPDATE users_can_update_their_own_messages
           (create_policy ''Users can send messages to their conversations'' INSERT init_send_messages
             (create_policy ''Users can view messages from their conversations'' SELECT init_view_messages [])) \<rparr>"

subsection \<open>Migration \<open>raspy_spark\<close>: SECURITY DEFINER helper functions\<close>

text \<open>
  The two functions read the stored tables. The migration drops four policies of the first
  migration and creates four under the same names, here \<open>rs_view_conversations\<close>,
  \<open>rs_view_participants\<close>, \<open>rs_add_participants\<close> and \<open>rs_view_messages\<close>; it leaves
  the INSERT policy on messages as it was.
\<close>

definition get_user_conversation_ids :: "db \<Rightarrow> uuid \<Rightarrow> uuid list" where
  "get_user_conversation_ids d u =
     map cp_conversation_id (filter (\<lambda>cp. cp_user_id cp = u) (conversation_participants d))"

definition get_created_conversation_ids :: "db \<Rightarrow> uuid \<Rightarrow> uuid list" where
  "get_created_conversation_ids d u =
     map c_id (filter (\<lambda>c. created_by c = Some u) (conversations d))"

definition rs_view_conversations :: "conversation policy" where
  "rs_view_conversations sc u =
     Some (\<lambda>r. c_id r \<in> set (get_user_conversation_ids (definer_db sc) u))"

definition rs_view_participants :: "participant policy" where
  "rs_view_participants sc u =
     Some (\<lambda>r. cp_conversation_id r \<in> set (get_user_conversation_ids (definer_db sc) u))"

definition rs_add_participants :: "participant policy" where
  "rs_add_participants sc u =
     Some (\<lambda>r. cp_conversation_id r \<in> set (get_created_conversation_ids (definer_db sc) u)
               \<or> cp_user_id r = u)"

definition rs_view_messages :: "message policy" where
  "rs_view_messages sc u =
     Some (\<lambda>r. m_conversation_id r \<in> set (get_user_conversation_ids (definer_db sc) u))"

definition raspy_spark :: "schema \<Rightarrow> schema" where
  "raspy_spark S =
     \<lparr> on_profiles = on_profiles S,
       on_conversations =
         create_policy ''Users can view conversations they participate in'' SELECT rs_view_conversations
           (drop_policy_if_exists ''Users can view conversations they participate in'' (on_conversations S)),
       on_conversation_participants =
         create_policy ''Users can add participants to conversations they created'' INSERT rs_add_participants
           (create_policy ''Users can view participants of their conversations'' SELECT rs_view_participants
             (drop_policy_if_exists ''Users can add participants to conversations they created''
               (drop_policy_if_exists ''Users can view participants of their conversations''
                 (on_conversation_participants S)))),
       on_messages =
         create_policy ''Users can view messages from their conversations'' SELECT rs_view_messages
           (drop_policy_if_exists ''Users can view messages from their conversations'' (on_messages S)) \<rparr>"

subsection \<open>Migration \<open>graceful_king\<close>: policies with plain sub-selects\<close>

text \<open>
  The migration drops five policies by name and creates five:
  \<^item> \<open>gk_view_participants\<close> is "Users can view participants of conversations they join",
  \<^item> \<open>gk_join_or_add_participants\<close> is "Users can join conversations or add others to
    their own conversations",
  \<^item> \<open>gk_view_conversations\<close> is "Users can view their conversations",
  \<^item> \<open>gk_view_messages\<close> is "Users can view messages in their conversations",
  \<^item> \<open>gk_send_messages\<close> is "Users can send messages to conversations they participate in".

  Each \<open>EXISTS (SELECT 1 FROM t x WHERE cond)\<close> holds when some row of \<open>t\<close>, as the
  sub-select sees \<open>t\<close>, satisfies \<open>cond\<close>. The helper functions of \<open>raspy_spark\<close> stay
  defined and are no longer called.
\<close>

definition gk_view_participants :: "participant policy" where
  "gk_view_participants sc u =
     map_option
       (\<lambda>cps r. list_ex (\<lambda>cp. cp_conversation_id cp = cp_conversation_id r \<and> cp_user_id cp = u) cps)
       (visible_participants sc)"

definition gk_join_or_add_participants :: "participant policy" where
  "gk_join_or_add_participants sc u =
     map_option
       (\<lambda>cs r. cp_user_id r = u
                \<or> list_ex (\<lambda>c. c_id c = cp_conversation_id r \<and> created_by c = Some u) cs)
       (visible_conversations sc)"

definition gk_view_conversations :: "conversation policy" where
  "gk_view_conversations sc u =
     map_option
       (\<lambda>cps r. list_ex (\<lambda>cp. cp_conversation_id cp = c_id r \<and> cp_user_id cp = u) cps)
       (visible_participants sc)"

definition gk_view_messages :: "message policy" where
  "gk_view_messages sc u =
     map_option
       (\<lambda>cps r. list_ex (\<lambda>cp. cp_conversation_id cp = m_conversation_id r \<and> cp_user_id cp = u) cps)
       (visible_participants sc)"

definition gk_send_messages :: "message policy" where
  "gk_send_messages sc u =
     map_option
       (\<lambda>cps r. sender_id r = u
                \<and> list_ex (\<lambda>cp. cp_conversation_id cp = m_conversation_id r \<and> cp_user_id cp = u) cps)
       (visible_participants sc)"

definition graceful_king :: "schema \<Rightarrow> schema" where
  "graceful_king S =
     \<lparr> on_profiles = on_profiles S,
       on_conversations =
         create_policy ''Users can view their conversations'' SELECT gk_view_conversations
           (drop_policy_if_exists ''Users can view conversations they participate in'' (on_conversations S)),
       on_conversation_participants =
         create_policy ''Users can join conversations or add others to their own conversations'' INSERT
             gk_join_or_add_participants
           (create_policy ''Users can view participants of conversations they join'' SELECT gk_view_participants
             (drop_policy_if_exists ''Users can add participants to conversations they created''
               (drop_policy_if_exists ''Users can view participants of their conversations''
                 (on_conversation_participants S)))),
       on_messages =
         create_policy ''Users can send messages to conversations they participate in'' INSERT gk_send_messages
           (create_policy ''Users can view messages in their conversations'' SELECT gk_view_messages
             (drop_policy_if_exists ''Users can view messages from their conversations''
               (drop_policy_if_exists ''Users can send messages to their conversations'' (on_messages S)))) \<rparr>"

text \<open>
  Migrations run in the order of their timestamps: the table-creating migration first, then
  \<open>20250814195648_raspy_spark\<close>, then \<open>20250814200318_graceful_king\<close>.
\<close>

definition helper_schema :: schema where
  "helper_schema = raspy_spark initial_schema"

definition final_schema :: schema where
  "final_schema = graceful_king (raspy_spark initial_schema)"

subsection \<open>Evaluation\<close>

text \<open>
  \<open>scope_of S d u n\<close> is the scope a policy is expanded in when sub-selects may nest
  \<open>n\<close> levels deep: at depth 0 no sub-select on a protected table is resolved; one level
  further, a sub-select sees the table filtered by the table's SELECT policies, which are
  themselves expanded one level lower.
\<close>

definition select_rows :: "'r policy list \<Rightarrow> scope \<Rightarrow> uuid \<Rightarrow> 'r list \<Rightarrow> 'r list option" where
  "select_rows ps sc u rows = map_option (\<lambda>ok. filter ok rows) (permissive ps sc u)"

primrec scope_of :: "schema \<Rightarrow> db \<Rightarrow> uuid \<Rightarrow> nat \<Rightarrow> scope" where
  "scope_of S d u 0 =
     \<lparr> visible_participants = None, visible_conversations = None, definer_db = d \<rparr>"
| "scope_of S d u (Suc n) =
     \<lparr> visible_participants =
         select_rows (policies_for SELECT (on_conversation_participants S)) (scope_of S d u n) u
           (conversation_participants d),
       visible_conversations =
         select_rows (policies_for SELECT (on_conversations S)) (scope_of S d u n) u (conversations d),
       definer_db = d \<rparr>"

text \<open>
  The operations of the query interface, for principal \<open>u\<close> with nesting budget \<open>n\<close>.
  A read yields the rows that pass, or \<open>None\<close> when the policies do not expand within
  the budget. An insert check yields the decision (\<open>True\<close> is ALLOW, \<open>False\<close> is DENY)
  or \<open>None\<close> likewise.
\<close>

definition select_profiles :: "schema \<Rightarrow> nat \<Rightarrow> db \<Rightarrow> uuid \<Rightarrow> profile list option" where
  "select_profiles S n d u =
     select_rows (policies_for SELECT (on_profiles S)) (scope_of S d u n) u (profiles d)"

definition select_conversations :: "schema \<Rightarrow> nat \<Rightarrow> db \<Rightarrow> uuid \<Rightarrow> conversation list option" where
  "select_conversations S n d u =
     select_rows (policies_for SELECT (on_conversations S)) (scope_of S d u n) u (conversations d)"

definition select_participants :: "schema \<Rightarrow> nat \<Rightarrow> db \<Rightarrow> uuid \<Rightarrow> participant list option" where
  "select_participants S n d u =
     select_rows (policies_for SELECT (on_conversation_participants S)) (scope_of S d u n) u
       (conversation_participants d)"

definition select_messages :: "schema \<Rightarrow> nat \<Rightarrow> db \<Rightarrow> uuid \<Rightarrow> message list option" where
  "select_messages S n d u =
     select_rows (policies_for SELECT (on_messages S)) (scope_of S d u n) u (messages d)"

definition insert_check :: "'r policy list \<Rightarrow> scope \<Rightarrow> uuid \<Rightarrow> 'r \<Rightarrow> bool option" where
  "insert_check ps sc u r = map_option (\<lambda>ok. ok r) (permissive ps sc u)"

definition message_insert_allowed :: "schema \<Rightarrow> nat \<Rightarrow> db \<Rightarrow> uuid \<Rightarrow> message \<Rightarrow> bool option" where
  "message_insert_allowed S n d u r =
     insert_check (policies_for INSERT (on_messages S)) (scope_of S d u n) u r"

definition participant_insert_allowed :: "schema \<Rightarrow> nat \<Rightarrow> db \<Rightarrow> uuid \<Rightarrow> participant \<Rightarrow> bool option" where
  "participant_insert_allowed S n d u r =
     insert_check (policies_for INSERT (on_conversation_participants S)) (scope_of S d u n) u r"

section \<open>Writes through the query interface\<close>

text \<open>
  Errors the database reports to the caller. \<open>Policy_recursion\<close> is reported when the
  policies do not expand within the nesting budget; for a policy set that expands at no
  depth it is PostgreSQL's "infinite recursion detected in policy for relation".
  \<open>Rls_violation\<close> is the refusal of a row by the policies. The other three are
  violations of the constraints the first migration declares.
\<close>

datatype pg_error =
  Policy_recursion | Rls_violation | Not_null_violation | Unique_violation | Foreign_key_violation

definition insert_message :: "schema \<Rightarrow> nat \<Rightarrow> db \<Rightarrow> uuid \<Rightarrow> message \<Rightarrow> pg_error + db" where
  "insert_message S n d u r =
     (case message_insert_allowed S n d u r of
        None \<Rightarrow> Inl Policy_recursion
      | Some ok \<Rightarrow>
          if ok then
            if list_ex (\<lambda>m. m_id m = m_id r) (messages d) then Inl Unique_violation
            else if list_ex (\<lambda>c. c_id c = m_conversation_id r) (conversations d) then
              if list_ex (\<lambda>p. profile_id p = sender_id r) (profiles d)
              then Inr (d\<lparr>messages := messages d @ [r]\<rparr>)
              else Inl Foreign_key_violation
            else Inl Foreign_key_violation
          else Inl Rls_violation)"

text \<open>
  The trigger function \<open>update_updated_at_column\<close> runs before every update of a
  conversations row and overwrites \<open>updated_at\<close> with the server's clock.
\<close>

definition update_updated_at_column :: "timestamptz \<Rightarrow> conversation \<Rightarrow> conversation" where
  "update_updated_at_column server_now new = new\<lparr>c_updated_at := server_now\<rparr>"

text \<open>
  \<open>UPDATE conversations SET updated_at = ts WHERE id = cid\<close> as principal \<open>u\<close>: the
  rows touched are those that pass the table's UPDATE policies and, because the statement
  reads the \<open>id\<close> column, its SELECT policies.
\<close>

definition update_conversation_updated_at ::
  "schema \<Rightarrow> nat \<Rightarrow> db \<Rightarrow> uuid \<Rightarrow> uuid \<Rightarrow> timestamptz \<Rightarrow> timestamptz \<Rightarrow> pg_error + db" where
  "update_conversation_updated_at S n d u cid ts server_now =
     (case permissive (policies_for UPDATE (on_conversations S)) (scope_of S d u n) u of
        None \<Rightarrow> Inl Policy_recursion
      | Some upd_ok \<Rightarrow>
          (case permissive (policies_for SELECT (on_conversations S)) (scope_of S d u n) u of
             None \<Rightarrow> Inl Policy_recursion
           | Some sel_ok \<Rightarrow>
               Inr (d\<lparr>conversations :=
                      map (\<lambda>c. if c_id c = cid \<and> upd_ok c \<and> sel_ok c
                               then update_updated_at_column server_now (c\<lparr>c_updated_at := ts\<rparr>)
                               else c)
                        (conversations d)\<rparr>)))"

text \<open>
  \<open>INSERT INTO conversations ... RETURNING *\<close> (the client's \<open>.insert(...).select()\<close>):
  the new row has to pass the INSERT policies and, since it is returned, the SELECT
  policies.
\<close>

definition insert_conversation_returning ::
  "schema \<Rightarrow> nat \<Rightarrow> db \<Rightarrow> uuid \<Rightarrow> conversation \<Rightarrow> pg_error + (conversation \<times> db)" where
  "insert_conversation_returning S n d u r =
     (case insert_check (policies_for INSERT (on_conversations S)) (scope_of S d u n) u r of
        None \<Rightarrow> Inl Policy_recursion
      | Some ins_ok \<Rightarrow>
          (case insert_check (policies_for SELECT (on_conversations S)) (scope_of S d u n) u r of
             None \<Rightarrow> Inl Policy_recursion
           | Some sel_ok \<Rightarrow>
               if ins_ok \<and> sel_ok then
                 if list_ex (\<lambda>c. c_id c = c_id r) (conversations d) then Inl Unique_violation
                 else if (case created_by r of
                            None \<Rightarrow> True
                          | Some creator \<Rightarrow> list_ex (\<lambda>p. profile_id p = creator) (profiles d))
                 then Inr (r, d\<lparr>conversations := conversations d @ [r]\<rparr>)
                 else Inl Foreign_key_violation
               else Inl Rls_violation))"

text \<open>A multi-row insert is one statement: one refused row refuses the batch.\<close>

definition insert_participants ::
  "schema \<Rightarrow> nat \<Rightarrow> db \<Rightarrow> uuid \<Rightarrow> participant list \<Rightarrow> pg_error + db" where
  "insert_participants S n d u rs =
     (case permissive (policies_for INSERT (on_conversation_participants S)) (scope_of S d u n) u of
        None \<Rightarrow> Inl Policy_recursion
      | Some ok \<Rightarrow>
          if list_all ok rs then
            if distinct (map (\<lambda>cp. (cp_conversation_id cp, cp_user_id cp)) (conversation_participants d @ rs))
               \<and> distinct (map cp_id (conversation_participants d @ rs))
            then
              if list_all (\<lambda>cp. list_ex (\<lambda>c. c_id c = cp_conversation_id cp) (conversations d)
                               \<and> list_ex (\<lambda>p. profile_id p = cp_user_id cp) (profiles d)) rs
              then Inr (d\<lparr>conversation_participants := conversation_participants d @ rs\<rparr>)
              else Inl Foreign_key_violation
            else Inl Unique_violation
          else Inl Rls_violation)"

section \<open>Profile provisioning: the trigger function \<open>handle_new_user\<close>\<close>

record auth_user =
  au_id :: uuid
  au_email :: "string option"
  raw_user_meta_data :: "(string \<times> string) list"

text \<open>\<open>split_part(s, '@', 1)\<close>: the text before the first \<open>@\<close>, all of it when there is none.\<close>

definition split_part_at_1 :: "string \<Rightarrow> string" where
  "split_part_at_1 s = takeWhile (\<lambda>c. c \<noteq> CHR ''@'') s"

definition coalesce :: "'a option \<Rightarrow> 'a option \<Rightarrow> 'a option" where
  "coalesce a b = (case a of Some x \<Rightarrow> Some x | None \<Rightarrow> b)"

text \<open>
  The function is \<open>SECURITY DEFINER\<close>, so no policy applies to its insert; the table's
  constraints do: \<open>username\<close> is NOT NULL and UNIQUE, \<open>id\<close> is the primary key. The
  remaining columns take their defaults.
\<close>

definition handle_new_user :: "timestamptz \<Rightarrow> db \<Rightarrow> auth_user \<Rightarrow> pg_error + db" where
  "handle_new_user server_now d new =
     (let local_part = map_option split_part_at_1 (au_email new);
          uname = coalesce (map_of (raw_user_meta_data new) ''username'') local_part;
          dname = coalesce (map_of (raw_user_meta_data new) ''display_name'') local_part
      in case uname of
           None \<Rightarrow> Inl Not_null_violation
         | Some un \<Rightarrow>
             if list_ex (\<lambda>p. profile_id p = au_id new \<or> username p = un) (profiles d)
             then Inl Unique_violation
             else Inr (d\<lparr>profiles := profiles d @
                    [\<lparr> profile_id = au_id new, username = un, display_name = dname,
                       avatar_url = None, status = Some ''online'', last_seen = Some server_now,
                       profile_created_at = server_now, profile_updated_at = server_now \<rparr>]\<rparr>))"

section \<open>Client: \<open>MessageInput.sendMessage\<close>\<close>

text \<open>
  JavaScript's \<open>trim\<close> removes white space and line terminators (as code units) from
  both ends.
\<close>

definition is_js_whitespace :: "nat \<Rightarrow> bool" where
  "is_js_whitespace c =
     (c \<in> set [9, 10, 11, 12, 13, 32, 160, 5760, 8232, 8233, 8239, 8287, 12288, 65279]
      \<or> (8192 \<le> c \<and> c \<le> 8202))"

definition trim :: "jsstring \<Rightarrow> jsstring" where
  "trim s = rev (dropWhile is_js_whitespace (rev (dropWhile is_js_whitespace s)))"

record message_input =
  message_text :: jsstring
  sending :: bool

datatype toast = Failed_to_send_message pg_error | Failed_to_create_conversation pg_error
  | Conversation_created

text \<open>
  Values the environment supplies to one call: the row id the database generates, the
  database clock, and the browser clock read by \<open>new Date()\<close>.
\<close>

record send_env =
  new_message_id :: uuid
  server_now :: timestamptz
  client_now :: timestamptz

text \<open>
  The object the client passes to \<open>insert\<close>, and the row the table makes of it: the
  columns the object leaves out take their defaults.
\<close>

record message_payload =
  p_content :: jsstring
  p_conversation_id :: uuid
  p_sender_id :: uuid
  p_type :: message_type

definition messages_row :: "send_env \<Rightarrow> message_payload \<Rightarrow> message" where
  "messages_row env p =
     \<lparr> m_id = new_message_id env, m_conversation_id = p_conversation_id p,
       sender_id = p_sender_id p, content = p_content p, m_type = Some (p_type p),
       m_created_at = server_now env, edited_at = None, is_deleted = Some False \<rparr>"

text \<open>The requests a call sends to the database, in order.\<close>

datatype request =
  Insert_into_messages message_payload
  | Update_conversations_updated_at uuid timestamptz

text \<open>
  The result of a call: the component's state, the database, the notification shown (if
  any) and the requests sent. The response of the update request is not looked at.
\<close>

definition sendMessage ::
  "schema \<Rightarrow> nat \<Rightarrow> send_env \<Rightarrow> uuid option \<Rightarrow> uuid \<Rightarrow> message_input \<Rightarrow> db
     \<Rightarrow> message_input \<times> db \<times> toast option \<times> request list" where
  "sendMessage S n env user conversationId st d =
     (case user of
        None \<Rightarrow> (st, d, None, [])
      | Some user_id \<Rightarrow>
          if trim (message_text st) = [] \<or> sending st then (st, d, None, [])
          else
            (let payload = \<lparr> p_content = trim (message_text st), p_conversation_id = conversationId,
                             p_sender_id = user_id, p_type = TextMsg \<rparr>
             in case insert_message S n d user_id (messages_row env payload) of
                  Inl err \<Rightarrow>
                    (st\<lparr>sending := False\<rparr>, d, Some (Failed_to_send_message err),
                     [Insert_into_messages payload])
                | Inr d' \<Rightarrow>
                    (st\<lparr>message_text := [], sending := False\<rparr>,
                     (case update_conversation_updated_at S n d' user_id conversationId
                             (client_now env) (server_now env) of
                        Inl err \<Rightarrow> d'
                      | Inr d'' \<Rightarrow> d''),
                     None,
                     [Insert_into_messages payload,
                      Update_conversations_updated_at conversationId (client_now env)])))"

definition db_of :: "message_input \<times> db \<times> toast option \<times> request list \<Rightarrow> db" where
  "db_of res = fst (snd res)"

definition requests_of :: "message_input \<times> db \<times> toast option \<times> request list \<Rightarrow> request list" where
  "requests_of res = snd (snd (snd res))"


section \<open>Client: \<open>MessagesList.fetchMessages\<close>\<close>

text \<open>
  The query selects the messages of one conversation that are not flagged deleted, oldest
  first, each with the sender's profile embedded. Both tables are read through their
  SELECT policies. On an error the component keeps its state.
\<close>

record message_view =
  v_id :: uuid
  v_content :: jsstring
  v_sender_id :: uuid
  v_created_at :: timestamptz
  v_edited_at :: "timestamptz option"
  v_profiles :: "(string \<times> string option) option"

record messages_list =
  shown_messages :: "message_view list"
  loading :: bool

definition messages_query :: "schema \<Rightarrow> nat \<Rightarrow> db \<Rightarrow> uuid \<Rightarrow> uuid \<Rightarrow> message list option" where
  "messages_query S n d u conversationId =
     map_option
       (\<lambda>rows. sort_key m_created_at
                 (filter (\<lambda>m. m_conversation_id m = conversationId \<and> is_deleted m = Some False) rows))
       (select_messages S n d u)"

definition with_profile :: "profile list \<Rightarrow> message \<Rightarrow> message_view" where
  "with_profile ps m =
     \<lparr> v_id = m_id m, v_content = content m, v_sender_id = sender_id m,
       v_created_at = m_created_at m, v_edited_at = edited_at m,
       v_profiles = map_option (\<lambda>p. (username p, display_name p))
                      (find (\<lambda>p. profile_id p = sender_id m) ps) \<rparr>"

definition messages_response :: "schema \<Rightarrow> nat \<Rightarrow> db \<Rightarrow> uuid \<Rightarrow> uuid \<Rightarrow> message_view list option" where
  "messages_response S n d u conversationId =
     (case messages_query S n d u conversationId of
        None \<Rightarrow> None
      | Some rows \<Rightarrow>
          (case select_profiles S n d u of
             None \<Rightarrow> None
           | Some ps \<Rightarrow> Some (map (with_profile ps) rows)))"

definition fetchMessages ::
  "schema \<Rightarrow> nat \<Rightarrow> db \<Rightarrow> uuid \<Rightarrow> uuid \<Rightarrow> messages_list \<Rightarrow> messages_list" where
  "fetchMessages S n d u conversationId st =
     (case messages_response S n d u conversationId of
        None \<Rightarrow> st
      | Some data \<Rightarrow> st\<lparr>shown_messages := data, loading := False\<rparr>)"

text \<open>
  Modelled from the spec: the soft-delete operation of the entity store (section 4.1,
  "soft-delete (Message only)"; glossary, "marking a row hidden via a flag rather than
  removing it"). No statement of the repository sets \<open>is_deleted\<close>; the column and the
  read that filters on it are in the code.
\<close>

definition soft_delete :: "message \<Rightarrow> message" where
  "soft_delete m = m\<lparr>is_deleted := Some True\<rparr>"

text \<open>
  Modelled from the spec: the same operation on the messages table, addressed by the id of
  the message (section 6, "soft-delete via is_deleted flag only"); rows with another id
  are left as they are.
\<close>

definition soft_delete_message :: "db \<Rightarrow> uuid \<Rightarrow> db" where
  "soft_delete_message d mid =
     d\<lparr>messages := map (\<lambda>m. if m_id m = mid then soft_delete m else m) (messages d)\<rparr>"

section \<open>Client: \<open>NewConversationDialog.createConversation\<close>\<close>

text \<open>
  The look-up reads \<open>conversation_id\<close> of the participant rows whose \<open>user_id\<close> is one of
  the two principals, as the caller may see them; \<open>None\<close> is the \<open>null\<close> data of a failed
  request.
\<close>

definition fetch_existingConv :: "schema \<Rightarrow> nat \<Rightarrow> db \<Rightarrow> uuid \<Rightarrow> uuid \<Rightarrow> uuid list option" where
  "fetch_existingConv S n d user_id otherUserId =
     map_option
       (\<lambda>rows. map cp_conversation_id (filter (\<lambda>cp. cp_user_id cp \<in> set [user_id, otherUserId]) rows))
       (select_participants S n d user_id)"

text \<open>
  The \<open>reduce\<close> builds an object that counts rows per conversation id. Its keys are UUID
  strings, which JavaScript enumerates in insertion order; the object is the association
  list of keys in the order of their first occurrence.
\<close>

fun bump :: "uuid \<Rightarrow> (uuid \<times> nat) list \<Rightarrow> (uuid \<times> nat) list" where
  "bump k [] = [(k, 1)]"
| "bump k ((k', c) # acc) = (if k = k' then (k', c + 1) # acc else (k', c) # bump k acc)"

definition conversationCounts :: "uuid list \<Rightarrow> (uuid \<times> nat) list" where
  "conversationCounts existingConv = foldl (\<lambda>acc item. bump item acc) [] existingConv"

definition existingConversationId :: "uuid list option \<Rightarrow> uuid option" where
  "existingConversationId existingConv =
     (case existingConv of
        None \<Rightarrow> None
      | Some rows \<Rightarrow>
          if 2 \<le> length rows
          then map_option fst (find (\<lambda>kc. snd kc = 2) (conversationCounts rows))
          else None)"

record create_env =
  new_conversation_id :: uuid
  new_participant_ids :: "uuid \<times> uuid"
  create_now :: timestamptz

datatype create_result =
  Not_started | Opened_existing uuid | Created uuid | Create_failed pg_error

definition create_new_conversation ::
  "schema \<Rightarrow> nat \<Rightarrow> create_env \<Rightarrow> uuid \<Rightarrow> uuid \<Rightarrow> db \<Rightarrow> create_result \<times> db" where
  "create_new_conversation S n env user_id otherUserId d =
     (case insert_conversation_returning S n d user_id
             \<lparr> c_id = new_conversation_id env, c_name = None, c_type = Dm,
               created_by = Some user_id, c_created_at = create_now env,
               c_updated_at = create_now env \<rparr> of
        Inl convError \<Rightarrow> (Create_failed convError, d)
      | Inr (conversation, d1) \<Rightarrow>
          (case insert_participants S n d1 user_id
                  [\<lparr> cp_id = fst (new_participant_ids env), cp_conversation_id = c_id conversation,
                     cp_user_id = user_id, joined_at = create_now env \<rparr>,
                   \<lparr> cp_id = snd (new_participant_ids env), cp_conversation_id = c_id conversation,
                     cp_user_id = otherUserId, joined_at = create_now env \<rparr>] of
             Inl participantsError \<Rightarrow> (Create_failed participantsError, d1)
           | Inr d2 \<Rightarrow> (Created (c_id conversation), d2)))"

definition createConversation ::
  "schema \<Rightarrow> nat \<Rightarrow> create_env \<Rightarrow> uuid option \<Rightarrow> bool \<Rightarrow> uuid \<Rightarrow> db \<Rightarrow> create_result \<times> db" where
  "createConversation S n env user creating otherUserId d =
     (case user of
        None \<Rightarrow> (Not_started, d)
      | Some user_id \<Rightarrow>
          if creating then (Not_started, d)
          else
            (case existingConversationId (fetch_existingConv S n d user_id otherUserId) of
               Some cid \<Rightarrow> (Opened_existing cid, d)
             | None \<Rightarrow> create_new_conversation S n env user_id otherUserId d))"

section \<open>Sample data\<close>

definition sample_profile :: "uuid \<Rightarrow> string \<Rightarrow> profile" where
  "sample_profile i nm =
     \<lparr> profile_id = i, username = nm, display_name = Some nm, avatar_url = None,
       status = Some ''online'', last_seen = Some 0, profile_created_at = 0,
       profile_updated_at = 0 \<rparr>"

definition sample_member :: "uuid \<Rightarrow> uuid \<Rightarrow> uuid \<Rightarrow> participant" where
  "sample_member i c u = \<lparr> cp_id = i, cp_conversation_id = c, cp_user_id = u, joined_at = 0 \<rparr>"

definition sample_message :: "uuid \<Rightarrow> uuid \<Rightarrow> jsstring \<Rightarrow> timestamptz \<Rightarrow> bool \<Rightarrow> message" where
  "sample_message i s txt t del =
     \<lparr> m_id = i, m_conversation_id = 10, sender_id = s, content = txt, m_type = Some TextMsg,
       m_created_at = t, edited_at = None, is_deleted = Some del \<rparr>"

text \<open>
  Principals 1, 2 and 3; principal 1 created the DM conversation 10, whose participants
  are 1 and 2. The conversation holds three messages, the second of them flagged deleted;
  the third was created before the other two.
\<close>

definition dm_db :: db where
  "dm_db =
     \<lparr> profiles = [sample_profile 1 ''ann'', sample_profile 2 ''bob'', sample_profile 3 ''cat''],
       conversations =
         [\<lparr> c_id = 10, c_name = None, c_type = Dm, created_by = Some 1, c_created_at = 0,
            c_updated_at = 0 \<rparr>],
       conversation_participants = [sample_member 100 10 1, sample_member 101 10 2],
       messages =
         [sample_message 1000 2 [104, 105] 1 False,
          sample_message 1001 1 [111, 107] 2 True,
          sample_message 999 1 [121, 111] 0 False] \<rparr>"

definition sample_env :: send_env where
  "sample_env = \<lparr> new_message_id = 1002, server_now = 5, client_now = 7 \<rparr>"

definition sample_create_env :: create_env where
  "sample_create_env = \<lparr> new_conversation_id = 30, new_participant_ids = (300, 301), create_now = 9 \<rparr>"

text \<open>
  The same principals; the group conversation 20 of all three was created before the DM
  conversation 10 of principals 1 and 2.
\<close>

definition group_then_dm_db :: db where
  "group_then_dm_db =
     \<lparr> profiles = [sample_profile 1 ''ann'', sample_profile 2 ''bob'', sample_profile 3 ''cat''],
       conversations =
         [\<lparr> c_id = 20, c_name = Some ''team'', c_type = Group, created_by = Some 3,
            c_created_at = 0, c_updated_at = 0 \<rparr>,
          \<lparr> c_id = 10, c_name = None, c_type = Dm, created_by = Some 1, c_created_at = 1,
            c_updated_at = 1 \<rparr>],
       conversation_participants =
         [sample_member 200 20 3, sample_member 201 20 1, sample_member 202 20 2,
          sample_member 100 10 1, sample_member 101 10 2],
       messages = [] \<rparr>"

section \<open>The policy sets after each migration\<close>

lemmas migration_defs =
  final_schema_def helper_schema_def graceful_king_def raspy_spark_def initial_schema_def
  create_policy_def drop_policy_if_exists_def policies_for_def

lemma initial_policies:
  "policies_for SELECT (on_conversation_participants initial_schema) = [init_view_participants]"
  "policies_for SELECT (on_conversations initial_schema) = [init_view_conversations]"
  "policies_for UPDATE (on_conversations initial_schema) = []"
  "policies_for INSERT (on_conversation_participants initial_schema) = [init_add_participants]"
  "policies_for INSERT (on_messages initial_schema) = [init_send_messages]"
  by (simp_all add: migration_defs)

lemma helper_policies:
  "policies_for SELECT (on_profiles helper_schema) = [users_can_view_all_profiles]"
  "policies_for SELECT (on_conversations helper_schema) = [rs_view_conversations]"
  "policies_for UPDATE (on_conversations helper_schema) = []"
  "policies_for SELECT (on_conversation_participants helper_schema) = [rs_view_participants]"
  "policies_for INSERT (on_conversation_participants helper_schema) = [rs_add_participants]"
  "policies_for SELECT (on_messages helper_schema) = [rs_view_messages]"
  "policies_for INSERT (on_messages helper_schema) = [init_send_messages]"
  by (simp_all add: migration_defs)

lemma final_policies:
  "policies_for SELECT (on_profiles final_schema) = [users_can_view_all_profiles]"
  "policies_for SELECT (on_conversations final_schema) = [gk_view_conversations]"
  "policies_for UPDATE (on_conversations final_schema) = []"
  "policies_for SELECT (on_conversation_participants final_schema) = [gk_view_participants]"
  "policies_for INSERT (on_conversation_participants final_schema) = [gk_join_or_add_participants]"
  "policies_for SELECT (on_messages final_schema) = [gk_view_messages]"
  "policies_for INSERT (on_messages final_schema) = [gk_send_messages]"
  by (simp_all add: migration_defs)

lemma final_policy_names:
  "map fst (on_conversation_participants final_schema) =
     [''Users can view participants of conversations they join'',
      ''Users can join conversations or add others to their own conversations'']"
  "map fst (on_conversations final_schema) =
     [''Users can create conversations'', ''Users can view their conversations'']"
  "map fst (on_messages final_schema) =
     [''Users can update their own messages'',
      ''Users can view messages in their conversations'',
      ''Users can send messages to conversations they participate in'']"
  by (simp_all add: migration_defs)

section \<open>Expansion of the policies\<close>

lemma permissive_single: "permissive [p] sc u = map_option (\<lambda>f r. f r) (p sc u)"
  by (cases "p sc u") (simp_all add: permissive_def)

lemma permissive_none: "permissive [] sc u = Some (\<lambda>r. False)"
  by (simp add: permissive_def)

text \<open>
  After \<open>graceful_king\<close> the relation that the sub-select of the participants' SELECT
  policy ranges over is the participants table seen through that same policy, one level
  down. No depth resolves it.
\<close>

lemma final_select_participants_step:
  "select_participants final_schema (Suc n) d u =
     map_option
       (\<lambda>cps. filter (\<lambda>r. list_ex (\<lambda>cp. cp_conversation_id cp = cp_conversation_id r \<and> cp_user_id cp = u) cps)
                (conversation_participants d))
       (select_participants final_schema n d u)"
  by (simp add: select_participants_def select_rows_def final_policies permissive_single
      gk_view_participants_def option.map_comp comp_def)

lemma final_visible_participants: "visible_participants (scope_of final_schema d u n) = None"
proof (induction n)
  case 0
  show ?case by simp
next
  case (Suc n)
  then show ?case
    by (simp add: select_rows_def final_policies permissive_single gk_view_participants_def)
qed

lemma final_visible_conversations: "visible_conversations (scope_of final_schema d u n) = None"
proof (cases n)
  case 0
  then show ?thesis by simp
next
  case (Suc m)
  then show ?thesis
    by (simp add: select_rows_def final_policies permissive_single gk_view_conversations_def
        final_visible_participants)
qed

text \<open>
  After \<open>raspy_spark\<close> the SELECT policies call the definer functions and resolve at
  every depth: a sub-select on participants sees the rows of the caller's conversations.
\<close>

lemma helper_select_participants:
  "select_participants helper_schema n d u =
     Some (filter (\<lambda>r. is_participant d u (cp_conversation_id r)) (conversation_participants d))"
proof -
  have m: "\<And>c. (c \<in> set (get_user_conversation_ids d u)) = is_participant d u c"
    by (auto simp: get_user_conversation_ids_def is_participant_def list_ex_iff)
  have db: "definer_db (scope_of helper_schema d u n) = d"
    by (cases n) simp_all
  show ?thesis
    by (simp add: select_participants_def select_rows_def helper_policies permissive_single
        rs_view_participants_def db m)
qed

lemma helper_visible_participants:
  "visible_participants (scope_of helper_schema d u (Suc n)) =
     Some (filter (\<lambda>r. is_participant d u (cp_conversation_id r)) (conversation_participants d))"
  using helper_select_participants [of n d u] by (simp add: select_participants_def)

lemma helper_definer_db: "definer_db (scope_of S d u n) = d"
  by (cases n) simp_all

lemma member_iff_user_conversation: "(c \<in> set (get_user_conversation_ids d u)) = is_participant d u c"
  by (auto simp: get_user_conversation_ids_def is_participant_def list_ex_iff)


lemma helper_select_conversations:
  "select_conversations helper_schema n d u =
     Some (filter (\<lambda>r. is_participant d u (c_id r)) (conversations d))"
  by (simp add: select_conversations_def select_rows_def helper_policies permissive_single
      rs_view_conversations_def helper_definer_db member_iff_user_conversation)

lemma helper_select_messages:
  "select_messages helper_schema n d u =
     Some (filter (\<lambda>r. is_participant d u (m_conversation_id r)) (messages d))"
  by (simp add: select_messages_def select_rows_def helper_policies permissive_single
      rs_view_messages_def helper_definer_db member_iff_user_conversation)

lemma helper_select_profiles: "select_profiles helper_schema n d u = Some (profiles d)"
  by (simp add: select_profiles_def select_rows_def helper_policies permissive_single
      users_can_view_all_profiles_def)

lemma final_select_profiles: "select_profiles final_schema n d u = Some (profiles d)"
  by (simp add: select_profiles_def select_rows_def final_policies permissive_single
      users_can_view_all_profiles_def)

lemma final_select_conversations: "select_conversations final_schema n d u = None"
  by (simp add: select_conversations_def select_rows_def final_policies permissive_single
      gk_view_conversations_def final_visible_participants)

lemma final_select_participants: "select_participants final_schema n d u = None"
  by (simp add: select_participants_def select_rows_def final_policies permissive_single
      gk_view_participants_def final_visible_participants)

lemma final_select_messages: "select_messages final_schema n d u = None"
  by (simp add: select_messages_def select_rows_def final_policies permissive_single
      gk_view_messages_def final_visible_participants)

lemma final_message_insert: "message_insert_allowed final_schema n d u r = None"
  by (simp add: message_insert_allowed_def insert_check_def final_policies permissive_single
      gk_send_messages_def final_visible_participants)

lemma final_participant_insert: "participant_insert_allowed final_schema n d u r = None"
  by (simp add: participant_insert_allowed_def insert_check_def final_policies permissive_single
      gk_join_or_add_participants_def final_visible_conversations)

lemma helper_message_insert:
  "message_insert_allowed helper_schema (Suc n) d u r =
     Some (u = sender_id r \<and> is_participant d u (m_conversation_id r))"
proof -
  have "(m_conversation_id r \<in> cp_conversation_id `
           {cp \<in> set (conversation_participants d).
              is_participant d u (cp_conversation_id cp) \<and> cp_user_id cp = u})
        = is_participant d u (m_conversation_id r)"
  proof
    assume "m_conversation_id r \<in> cp_conversation_id `
           {cp \<in> set (conversation_participants d).
              is_participant d u (cp_conversation_id cp) \<and> cp_user_id cp = u}"
    then show "is_participant d u (m_conversation_id r)" by auto
  next
    assume "is_participant d u (m_conversation_id r)"
    then obtain cp where cp: "cp \<in> set (conversation_participants d)"
        "cp_conversation_id cp = m_conversation_id r" "cp_user_id cp = u"
      by (auto simp: is_participant_def list_ex_iff)
    then have "is_participant d u (cp_conversation_id cp)"
      by (auto simp: is_participant_def list_ex_iff)
    with cp show "m_conversation_id r \<in> cp_conversation_id `
           {cp \<in> set (conversation_participants d).
              is_participant d u (cp_conversation_id cp) \<and> cp_user_id cp = u}"
      by force
  qed
  then show ?thesis
    by (simp add: message_insert_allowed_def insert_check_def helper_policies permissive_single
        init_send_messages_def helper_visible_participants del: scope_of.simps)
qed


lemma initial_visible_participants: "visible_participants (scope_of initial_schema d u n) = None"
proof (induction n)
  case 0
  show ?case by simp
next
  case (Suc n)
  then show ?case
    by (simp add: select_rows_def initial_policies permissive_single init_view_participants_def)
qed



lemma initial_message_insert: "message_insert_allowed initial_schema n d u r = None"
  by (simp add: message_insert_allowed_def insert_check_def initial_policies permissive_single
      init_send_messages_def initial_visible_participants)

text \<open>Under no schema of the history is a message with a forged sender allowed.\<close>

lemma forged_sender_never_allowed:
  assumes "S = initial_schema \<or> S = helper_schema \<or> S = final_schema"
    and "sender_id r \<noteq> u"
  shows "message_insert_allowed S n d u r \<noteq> Some True"
proof (cases n)
  case 0
  have "visible_participants (scope_of S d u 0) = None" by simp
  with assms(1) 0 show ?thesis
    by (auto simp: message_insert_allowed_def insert_check_def initial_policies helper_policies
        final_policies permissive_single init_send_messages_def gk_send_messages_def)
next
  case (Suc m)
  with assms show ?thesis
    by (auto simp: initial_message_insert helper_message_insert final_message_insert)
qed

section \<open>Claims about the policy evaluator\<close>

lemmas sample_defs =
  dm_db_def group_then_dm_db_def sample_member_def sample_profile_def sample_message_def

text \<open>
  Claim C1: policy evaluation is non-recursive; the membership test used by the read
  policies is a privileged look-up that does not re-enter the participants' read policy, so
  every policy decision terminates.

  This holds for the policies of \<open>raspy_spark\<close> (lemma \<open>helper_select_participants\<close>) but
  not for those of the later migration \<open>graceful_king\<close>, which are the ones in force: the
  participants' SELECT policy sub-selects from the participants table itself, so reading
  participants at depth \<open>n + 1\<close> needs the participants read at depth \<open>n\<close>, and the read
  yields no result at any depth, for every database and principal.
\<close>

theorem participants_read_policy_reenters_itself:
  "select_participants final_schema (Suc n) d u =
     map_option
       (\<lambda>cps. filter (\<lambda>r. list_ex (\<lambda>cp. cp_conversation_id cp = cp_conversation_id r \<and> cp_user_id cp = u) cps)
                (conversation_participants d))
       (select_participants final_schema n d u)
   \<and> select_participants final_schema n d u = None"
  using final_select_participants_step [of n d u] final_select_participants [of n d u] by simp

text \<open>
  Claim C2: a read of a Conversation, Participant or Message row by principal P returns the
  row if and only if P is a Participant of the row's conversation; Profile reads always
  return the row.

  With the policies of \<open>raspy_spark\<close> this is what the reads do (lemmas
  \<open>helper_select_conversations\<close>, \<open>helper_select_participants\<close>,
  \<open>helper_select_messages\<close>), and profiles are always returned (\<open>final_select_profiles\<close>).
  With the final policies the three membership-guarded reads return nothing to a
  participant either: principal 2 is a participant of conversation 10 of \<open>dm_db\<close> and
  none of the reads resolves.
\<close>

theorem member_reads_fail_after_graceful_king:
  "is_participant dm_db 2 10
   \<and> select_conversations final_schema n dm_db 2 = None
   \<and> select_participants final_schema n dm_db 2 = None
   \<and> select_messages final_schema n dm_db 2 = None"
  by (simp add: final_select_conversations final_select_participants final_select_messages
      is_participant_def sample_defs)

text \<open>
  Claim C3: inserting a Message row R as principal P is allowed if and only if
  \<open>R.sender_id = P\<close> and P is a Participant of \<open>R.conversation_id\<close>.

  With the policies of \<open>raspy_spark\<close> the check decides exactly that one level deep (lemma
  \<open>helper_message_insert\<close>). With the final policies the check of a participant's own
  message is never decided: principal 1 is a participant of conversation 10 and sends as
  itself.
\<close>

theorem member_send_fails_after_graceful_king:
  "is_participant dm_db 1 10
   \<and> message_insert_allowed final_schema n dm_db 1
        \<lparr> m_id = 1002, m_conversation_id = 10, sender_id = 1, content = [104, 105],
          m_type = Some TextMsg, m_created_at = 3, edited_at = None, is_deleted = Some False \<rparr> = None"
  by (simp add: final_message_insert is_participant_def sample_defs)

text \<open>
  Claim C4: inserting a Participant row R as principal P is allowed if and only if
  \<open>R.user_id = P\<close> or P is the creator of conversation \<open>R.conversation_id\<close>.

  With the policies of \<open>raspy_spark\<close> the check decides exactly that (lemma
  \<open>helper_participant_insert\<close>). With the final policies neither a principal adding
  itself (principal 3) nor the creator adding someone else (principal 1, creator of
  conversation 10) gets a decision.
\<close>

theorem join_and_add_fail_after_graceful_king:
  "participant_insert_allowed final_schema n dm_db 3 (sample_member 102 10 3) = None
   \<and> is_creator dm_db 1 10
   \<and> participant_insert_allowed final_schema n dm_db 1 (sample_member 102 10 3) = None"
  by (simp add: final_participant_insert is_creator_def sample_defs)




section \<open>Claims about sending a message\<close>


lemma trim_sample: "trim [32, 104, 105, 10] = [104, 105]" "trim [32, 9, 12288] = []"
  by (simp_all add: trim_def is_js_whitespace_def)

text \<open>No schema of the history has an UPDATE policy on conversations, so an update touches no row.\<close>

lemma update_without_policy:
  assumes "policies_for UPDATE (on_conversations S) = []"
  shows "case update_conversation_updated_at S n d u cid ts now of
           Inl e \<Rightarrow> True | Inr d' \<Rightarrow> d' = d"
proof -
  have "map (\<lambda>c. c) (conversations d) = conversations d" by simp
  then show ?thesis using assms
    by (simp add: update_conversation_updated_at_def permissive_none split: option.splits)
qed

lemma insert_message_appends:
  "insert_message S n d u r = Inr d' \<Longrightarrow> d' = d\<lparr>messages := messages d @ [r]\<rparr>"
  by (auto simp: insert_message_def split: option.splits if_splits)







lemma sendMessage_keeps_conversations:
  assumes "policies_for UPDATE (on_conversations S) = []"
  shows "conversations (db_of (sendMessage S n env user c st d)) = conversations d"
proof (cases user)
  case None
  then show ?thesis by (simp add: sendMessage_def db_of_def)
next
  case (Some uid)
  let ?row = "messages_row env \<lparr> p_content = trim (message_text st), p_conversation_id = c,
                   p_sender_id = uid, p_type = TextMsg \<rparr>"
  show ?thesis
  proof (cases "insert_message S n d uid ?row")
    case (Inl err)
    with Some show ?thesis by (simp add: sendMessage_def db_of_def Let_def)
  next
    case (Inr d')
    then have d': "conversations d' = conversations d"
      using insert_message_appends [of S n d uid ?row d'] by simp
    have "conversations (case update_conversation_updated_at S n d' uid c (client_now env) (server_now env) of
                     Inl err \<Rightarrow> d' | Inr d'' \<Rightarrow> d'') = conversations d'"
      using update_without_policy
        [OF assms, where n = n and d = d' and u = uid and cid = c and ts = "client_now env"
           and now = "server_now env"]
      by (simp split: sum.splits)
    with Some Inr d' show ?thesis by (simp add: sendMessage_def db_of_def Let_def)
  qed
qed

text \<open>
  Claim C7: whenever a Message is successfully appended to a Conversation, the client bumps
  the Conversation's \<open>updated_at\<close>, so that after every successful send the row's
  \<open>updated_at\<close> reflects the send time.

  The client does send the update, but no migration gives the conversations table an
  UPDATE policy, so the update touches no row (lemma \<open>update_without_policy\<close>): under the
  final policies no call of \<open>sendMessage\<close> changes the conversations table. Under the
  policies of \<open>raspy_spark\<close>, where a participant's send succeeds, principal 1 sends
  \<open>" hi\n"\<close> to conversation 10 at client time 7: the message is appended, both requests
  are sent, and the conversation's \<open>updated_at\<close> is still 0.
\<close>

theorem send_leaves_updated_at_unchanged:
  "conversations (db_of (sendMessage final_schema n env user c st d)) = conversations d
   \<and> requests_of (sendMessage helper_schema 1 sample_env (Some 1) 10
       \<lparr> message_text = [32, 104, 105, 10], sending = False \<rparr> dm_db)
     = [Insert_into_messages
          \<lparr> p_content = [104, 105], p_conversation_id = 10, p_sender_id = 1, p_type = TextMsg \<rparr>,
        Update_conversations_updated_at 10 7]
   \<and> messages (db_of (sendMessage helper_schema 1 sample_env (Some 1) 10
       \<lparr> message_text = [32, 104, 105, 10], sending = False \<rparr> dm_db))
     = messages dm_db @
         [\<lparr> m_id = 1002, m_conversation_id = 10, sender_id = 1, content = [104, 105],
            m_type = Some TextMsg, m_created_at = 5, edited_at = None, is_deleted = Some False \<rparr>]
   \<and> map (\<lambda>c. (c_id c, c_updated_at c))
        (conversations (db_of (sendMessage helper_schema 1 sample_env (Some 1) 10
           \<lparr> message_text = [32, 104, 105, 10], sending = False \<rparr> dm_db)))
     = [(10, 0)]"
proof -
  let ?row = "\<lparr> m_id = 1002, m_conversation_id = 10, sender_id = 1, content = [104, 105],
            m_type = Some TextMsg, m_created_at = 5, edited_at = None, is_deleted = Some False \<rparr>"
  have ins: "message_insert_allowed helper_schema 1 dm_db 1 ?row = Some True"
    using helper_message_insert [of 0 dm_db 1 ?row]
    by (simp add: is_participant_def dm_db_def sample_member_def)
  have fk: "list_ex (\<lambda>c. c_id c = 10) (conversations dm_db)"
    "list_ex (\<lambda>p. profile_id p = 1) (profiles dm_db)"
    "\<not> list_ex (\<lambda>m. m_id m = 1002) (messages dm_db)"
    by (simp_all add: sample_defs)
  have insm: "insert_message helper_schema 1 dm_db 1 ?row = Inr (dm_db\<lparr>messages := messages dm_db @ [?row]\<rparr>)"
    using fk by (simp add: insert_message_def ins del: One_nat_def)
  have upd: "update_conversation_updated_at helper_schema 1 d 1 10 7 5 = Inr d" for d
    using update_without_policy
      [where S = helper_schema and n = 1 and d = d and u = 1 and cid = 10 and ts = 7 and now = 5]
    by (simp add: helper_policies update_conversation_updated_at_def permissive_none permissive_single
         rs_view_conversations_def del: scope_of.simps split: sum.splits)
  have "sendMessage helper_schema 1 sample_env (Some 1) 10
          \<lparr> message_text = [32, 104, 105, 10], sending = False \<rparr> dm_db =
     (\<lparr> message_text = [], sending = False \<rparr>,
      dm_db\<lparr>messages := messages dm_db @ [?row]\<rparr>,
      None,
      [Insert_into_messages
         \<lparr> p_content = [104, 105], p_conversation_id = 10, p_sender_id = 1, p_type = TextMsg \<rparr>,
       Update_conversations_updated_at 10 7])"
    by (simp add: sendMessage_def trim_sample Let_def insm upd sample_env_def
        messages_row_def del: scope_of.simps One_nat_def)
  moreover have "map (\<lambda>c. (c_id c, c_updated_at c)) (conversations dm_db) = [(10, 0)]"
    by (simp add: dm_db_def)
  moreover have "conversations (db_of (sendMessage final_schema n env user c st d)) = conversations d"
    by (rule sendMessage_keeps_conversations) (simp add: final_policies)
  ultimately show ?thesis by (simp add: requests_of_def db_of_def)
qed

section \<open>Claims about reading messages\<close>

lemma select_rows_subset: "select_rows ps sc u rows = Some out \<Longrightarrow> set out \<subseteq> set rows"
  by (auto simp: select_rows_def)

lemma messages_query_Some:
  assumes "messages_query S n d u c = Some rows"
  shows "\<exists>ms. select_messages S n d u = Some ms \<and> rows = sort_key m_created_at
        (filter (\<lambda>m. m_conversation_id m = c \<and> is_deleted m = Some False) ms)"
  using assms unfolding messages_query_def by (cases "select_messages S n d u") auto

lemma messages_query_rows:
  assumes "messages_query S n d u c = Some rows" and "r \<in> set rows"
  shows "r \<in> set (messages d)" and "is_deleted r = Some False" and "m_conversation_id r = c"
proof -
  from messages_query_Some [OF assms(1)] obtain ms where ms: "select_messages S n d u = Some ms"
    and rows: "rows = sort_key m_created_at
        (filter (\<lambda>m. m_conversation_id m = c \<and> is_deleted m = Some False) ms)"
    by blast
  from ms have sub: "set ms \<subseteq> set (messages d)"
    unfolding select_messages_def by (rule select_rows_subset)
  have "set rows = {m \<in> set ms. m_conversation_id m = c \<and> is_deleted m = Some False}"
    unfolding rows by simp
  with assms(2) have r: "r \<in> set ms" "m_conversation_id r = c" "is_deleted r = Some False"
    by simp_all
  from r(1) sub show "r \<in> set (messages d)" by blast
  from r show "is_deleted r = Some False" and "m_conversation_id r = c" by simp_all
qed

lemma soft_deleted_rows:
  assumes "r \<in> set (messages (soft_delete_message d mid))" and "m_id r = mid"
  shows "is_deleted r = Some True"
proof -
  from assms(1) obtain m where m: "m \<in> set (messages d)"
    and r: "r = (if m_id m = mid then soft_delete m else m)"
    unfolding soft_delete_message_def by auto
  show ?thesis
  proof (cases "m_id m = mid")
    case True
    with r show ?thesis by (simp add: soft_delete_def)
  next
    case False
    with r assms(2) show ?thesis by simp
  qed
qed

lemma messages_response_ids:
  assumes "messages_response S n d u c = Some vs"
  shows "\<exists>rows. messages_query S n d u c = Some rows \<and> map v_id vs = map m_id rows"
proof (cases "messages_query S n d u c")
  case None
  with assms show ?thesis by (simp add: messages_response_def)
next
  case (Some rows)
  show ?thesis
  proof (cases "select_profiles S n d u")
    case None
    with Some assms show ?thesis by (simp add: messages_response_def)
  next
    case (Some ps)
    with \<open>messages_query S n d u c = Some rows\<close> assms
    have "vs = map (with_profile ps) rows" by (simp add: messages_response_def)
    then have "map v_id vs = map m_id rows" by (simp add: with_profile_def comp_def)
    with \<open>messages_query S n d u c = Some rows\<close> show ?thesis by simp
  qed
qed

lemma soft_delete_message_twice:
  "soft_delete_message (soft_delete_message d mid) mid = soft_delete_message d mid"
proof -
  have "(\<lambda>m. if m_id m = mid then soft_delete m else m) \<circ> (\<lambda>m. if m_id m = mid then soft_delete m else m)
        = (\<lambda>m. if m_id m = mid then soft_delete m else m)"
    by (rule ext) (simp add: soft_delete_def)
  then show ?thesis by (simp add: soft_delete_message_def)
qed


text \<open>
  Claim C8: soft-deleting a Message is idempotent: applying it twice leaves
  \<open>is_deleted = true\<close> and alters no other field; and a Message row with
  \<open>is_deleted = true\<close> is excluded from the conversation's message list.

  The soft-delete operation is the one modelled from the specification; the read is
  \<open>fetchMessages\<close>. Deleting twice is deleting once, for a row and for the table; the
  deleted row has the flag set and, with the flag put back, is the row it was. No row the
  query returns is flagged deleted, and after a soft-delete of message \<open>mid\<close> a response
  of the read, which is what the component then shows, has no entry with that id.
\<close>

theorem soft_delete_idempotent_and_hidden:
  "soft_delete (soft_delete m) = soft_delete m
   \<and> is_deleted (soft_delete m) = Some True
   \<and> (soft_delete m)\<lparr>is_deleted := is_deleted m\<rparr> = m
   \<and> soft_delete_message (soft_delete_message d mid) mid = soft_delete_message d mid
   \<and> (messages_query S n d u c = Some rows \<and> is_deleted r = Some True \<longrightarrow> r \<notin> set rows)
   \<and> (messages_response S n (soft_delete_message d mid) u c = Some vs \<longrightarrow>
        mid \<notin> set (map v_id vs)
        \<and> shown_messages (fetchMessages S n (soft_delete_message d mid) u c st) = vs)"
proof (intro conjI impI)
  show "soft_delete (soft_delete m) = soft_delete m"
    and "is_deleted (soft_delete m) = Some True"
    and "(soft_delete m)\<lparr>is_deleted := is_deleted m\<rparr> = m"
    by (simp_all add: soft_delete_def)
  show "soft_delete_message (soft_delete_message d mid) mid = soft_delete_message d mid"
    by (rule soft_delete_message_twice)
next
  assume a: "messages_query S n d u c = Some rows \<and> is_deleted r = Some True"
  show "r \<notin> set rows"
  proof
    assume "r \<in> set rows"
    with a have "is_deleted r = Some False" using messages_query_rows(2) by blast
    with a show False by simp
  qed
next
  assume vs: "messages_response S n (soft_delete_message d mid) u c = Some vs"
  then obtain rows where rows: "messages_query S n (soft_delete_message d mid) u c = Some rows"
    and ids: "map v_id vs = map m_id rows"
    using messages_response_ids by blast
  have "m_id r \<noteq> mid" if "r \<in> set rows" for r
  proof
    assume "m_id r = mid"
    with messages_query_rows(1) [OF rows that] have "is_deleted r = Some True"
      by (rule soft_deleted_rows)
    with messages_query_rows(2) [OF rows that] show False by simp
  qed
  then show "mid \<notin> set (map v_id vs)"
    unfolding ids by auto
  from vs show "shown_messages (fetchMessages S n (soft_delete_message d mid) u c st) = vs"
    by (simp add: fetchMessages_def)
qed

text \<open>
  The statement for principal 2 reading conversation 10 of \<open>dm_db\<close> under the policies of
  \<open>raspy_spark\<close>: the flagged message 1001 is not listed, the two others are listed oldest
  first, and after a soft-delete of message 1000 only message 999 is shown.
\<close>

theorem soft_delete_idempotent_and_hidden_witness:
  "messages_query helper_schema 0 dm_db 2 10
     = Some [sample_message 999 1 [121, 111] 0 False, sample_message 1000 2 [104, 105] 1 False]
   \<and> is_deleted (sample_message 1001 1 [111, 107] 2 True) = Some True
   \<and> sample_message 1001 1 [111, 107] 2 True
       \<notin> set [sample_message 999 1 [121, 111] 0 False, sample_message 1000 2 [104, 105] 1 False]
   \<and> messages_response helper_schema 0 (soft_delete_message dm_db 1000) 2 10
     = Some [\<lparr> v_id = 999, v_content = [121, 111], v_sender_id = 1, v_created_at = 0,
               v_edited_at = None, v_profiles = Some (''ann'', Some ''ann'') \<rparr>]
   \<and> 1000 \<notin> set (map v_id
        [\<lparr> v_id = 999, v_content = [121, 111], v_sender_id = 1, v_created_at = 0,
               v_edited_at = None, v_profiles = Some (''ann'', Some ''ann'') \<rparr>])
   \<and> shown_messages (fetchMessages helper_schema 0 (soft_delete_message dm_db 1000) 2 10
        \<lparr> shown_messages = [], loading = True \<rparr>)
     = [\<lparr> v_id = 999, v_content = [121, 111], v_sender_id = 1, v_created_at = 0,
               v_edited_at = None, v_profiles = Some (''ann'', Some ''ann'') \<rparr>]"
proof -
  let ?old = "sample_message 999 1 [121, 111] 0 False"
  let ?hi = "sample_message 1000 2 [104, 105] 1 False"
  let ?gone = "sample_message 1001 1 [111, 107] 2 True"
  let ?v = "\<lparr> v_id = 999, v_content = [121, 111], v_sender_id = 1, v_created_at = 0,
               v_edited_at = None, v_profiles = Some (''ann'', Some ''ann'') \<rparr>"
  have q: "messages_query helper_schema 0 dm_db 2 10 = Some [?old, ?hi]"
    by (simp add: messages_query_def helper_select_messages is_participant_def sample_defs)
  have g: "is_deleted ?gone = Some True"
    by (simp add: sample_message_def)
  have r: "messages_response helper_schema 0 (soft_delete_message dm_db 1000) 2 10 = Some [?v]"
    by (simp add: messages_response_def messages_query_def helper_select_messages
        helper_select_profiles is_participant_def sample_defs soft_delete_message_def
        soft_delete_def with_profile_def)
  note t = soft_delete_idempotent_and_hidden
    [where S = helper_schema and n = 0 and d = dm_db and u = 2 and c = 10
       and rows = "[?old, ?hi]" and r = ?gone and mid = 1000 and vs = "[?v]"
       and st = "\<lparr> shown_messages = [], loading = True \<rparr>"]
  from t q g have 1: "?gone \<notin> set [?old, ?hi]" by blast
  from t r have 2: "1000 \<notin> set (map v_id [?v])
      \<and> shown_messages (fetchMessages helper_schema 0 (soft_delete_message dm_db 1000) 2 10
            \<lparr> shown_messages = [], loading = True \<rparr>) = [?v]"
    by blast
  from q g 1 r 2 show ?thesis by blast
qed

section \<open>Claims about profile provisioning\<close>

lemma split_part_alice: "split_part_at_1 ''alice@example.com'' = ''alice''"
  by (simp add: split_part_at_1_def)

lemma handle_new_user_defaulted:
  assumes "au_email new = Some e"
    and "map_of (raw_user_meta_data new) ''username'' = None"
    and "map_of (raw_user_meta_data new) ''display_name'' = None"
  shows "handle_new_user now d new =
     (if list_ex (\<lambda>p. profile_id p = au_id new \<or> username p = split_part_at_1 e) (profiles d)
      then Inl Unique_violation
      else Inr (d\<lparr>profiles := profiles d @
             [\<lparr> profile_id = au_id new, username = split_part_at_1 e,
                display_name = Some (split_part_at_1 e),
                avatar_url = None, status = Some ''online'', last_seen = Some now,
                profile_created_at = now, profile_updated_at = now \<rparr>]\<rparr>))"
  using assms by (simp add: handle_new_user_def coalesce_def)

lemma handle_new_user_taken:
  assumes "au_email new = Some e"
    and "map_of (raw_user_meta_data new) ''username'' = None"
    and "list_ex (\<lambda>p. username p = split_part_at_1 e) (profiles d)"
  shows "handle_new_user now d new = Inl Unique_violation"
proof -
  from assms(3) have "list_ex (\<lambda>p. profile_id p = au_id new \<or> username p = split_part_at_1 e) (profiles d)"
    by (auto simp: list_ex_iff)
  with assms(1,2) show ?thesis by (simp add: handle_new_user_def coalesce_def)
qed


text \<open>
  Claim C9: a new principal with email \<open>alice@example.com\<close> and no requested username
  gets exactly one Profile row with the principal's id, username \<open>alice\<close> and display
  name \<open>alice\<close>; a second new principal with the same email local part fails with a
  uniqueness conflict on the username.

  As amended: this holds when the first principal requested neither a username nor a
  display name (the meta data has neither key) and no stored profile has the principal's id
  or the username \<open>alice\<close>. The second principal's provisioning then ends in the unique
  violation, whatever its id and the domain of its address.
\<close>

theorem provisioning_defaults_and_conflict:
  assumes "au_email first = Some ''alice@example.com''"
    and "map_of (raw_user_meta_data first) ''username'' = None"
    and "map_of (raw_user_meta_data first) ''display_name'' = None"
    and "\<not> list_ex (\<lambda>p. profile_id p = au_id first \<or> username p = ''alice'') (profiles d)"
    and "au_email second = Some e2" and "split_part_at_1 e2 = ''alice''"
    and "map_of (raw_user_meta_data second) ''username'' = None"
  shows "\<exists>d'. handle_new_user now d first = Inr d'
           \<and> profiles d' = profiles d @
                [\<lparr> profile_id = au_id first, username = ''alice'', display_name = Some ''alice'',
                   avatar_url = None, status = Some ''online'', last_seen = Some now,
                   profile_created_at = now, profile_updated_at = now \<rparr>]
           \<and> handle_new_user now' d' second = Inl Unique_violation"
proof -
  let ?p = "\<lparr> profile_id = au_id first, username = ''alice'', display_name = Some ''alice'',
                   avatar_url = None, status = Some ''online'', last_seen = Some now,
                   profile_created_at = now, profile_updated_at = now \<rparr>"
  let ?d' = "d\<lparr>profiles := profiles d @ [?p]\<rparr>"
  have 1: "handle_new_user now d first = Inr ?d'"
    using handle_new_user_defaulted [OF assms(1,2,3), of now d] assms(4)
    by (simp add: split_part_alice)
  have "list_ex (\<lambda>p. username p = split_part_at_1 e2) (profiles ?d')"
    using assms(6) by simp
  with assms(5,7) have 2: "handle_new_user now' ?d' second = Inl Unique_violation"
    by (rule handle_new_user_taken)
  from 1 2 show ?thesis by simp
qed

text \<open>
  The amended statement for principals 4 (\<open>alice@example.com\<close>) and 5
  (\<open>alice@elsewhere.org\<close>), provisioned on \<open>dm_db\<close>.
\<close>

theorem provisioning_defaults_and_conflict_witness:
  "handle_new_user 8 dm_db \<lparr> au_id = 4, au_email = Some ''alice@example.com'', raw_user_meta_data = [] \<rparr>
     = Inr (dm_db\<lparr>profiles := profiles dm_db @
         [\<lparr> profile_id = 4, username = ''alice'', display_name = Some ''alice'',
            avatar_url = None, status = Some ''online'', last_seen = Some 8,
            profile_created_at = 8, profile_updated_at = 8 \<rparr>]\<rparr>)
   \<and> handle_new_user 9
        (dm_db\<lparr>profiles := profiles dm_db @
         [\<lparr> profile_id = 4, username = ''alice'', display_name = Some ''alice'',
            avatar_url = None, status = Some ''online'', last_seen = Some 8,
            profile_created_at = 8, profile_updated_at = 8 \<rparr>]\<rparr>)
        \<lparr> au_id = 5, au_email = Some ''alice@elsewhere.org'', raw_user_meta_data = [] \<rparr>
     = Inl Unique_violation"
proof -
  have free: "\<not> list_ex (\<lambda>p. profile_id p = au_id \<lparr> au_id = 4, au_email = Some ''alice@example.com'', raw_user_meta_data = [] \<rparr>
      \<or> username p = ''alice'') (profiles dm_db)"
    by (simp add: sample_defs)
  have e2: "split_part_at_1 ''alice@elsewhere.org'' = ''alice''"
    by (simp add: split_part_at_1_def)
  from provisioning_defaults_and_conflict
    [where first = "\<lparr> au_id = 4, au_email = Some ''alice@example.com'', raw_user_meta_data = [] \<rparr>"
       and second = "\<lparr> au_id = 5, au_email = Some ''alice@elsewhere.org'', raw_user_meta_data = [] \<rparr>"
       and d = dm_db and ?e2.0 = "''alice@elsewhere.org''" and now = 8 and now' = 9, OF _ _ _ free _ e2]
  obtain d' where d': "handle_new_user 8 dm_db \<lparr> au_id = 4, au_email = Some ''alice@example.com'', raw_user_meta_data = [] \<rparr> = Inr d'"
    "profiles d' = profiles dm_db @
                [\<lparr> profile_id = 4, username = ''alice'', display_name = Some ''alice'',
                   avatar_url = None, status = Some ''online'', last_seen = Some 8,
                   profile_created_at = 8, profile_updated_at = 8 \<rparr>]"
    "handle_new_user 9 d' \<lparr> au_id = 5, au_email = Some ''alice@elsewhere.org'', raw_user_meta_data = [] \<rparr> = Inl Unique_violation"
    by auto
  have "handle_new_user 8 dm_db \<lparr> au_id = 4, au_email = Some ''alice@example.com'', raw_user_meta_data = [] \<rparr>
     = Inr (dm_db\<lparr>profiles := profiles dm_db @
         [\<lparr> profile_id = 4, username = ''alice'', display_name = Some ''alice'',
            avatar_url = None, status = Some ''online'', last_seen = Some 8,
            profile_created_at = 8, profile_updated_at = 8 \<rparr>]\<rparr>)"
    using handle_new_user_defaulted [of "\<lparr> au_id = 4, au_email = Some ''alice@example.com'', raw_user_meta_data = [] \<rparr>" "''alice@example.com''" 8 dm_db] free
    by (simp add: split_part_alice)
  with d' show ?thesis by simp
qed

text \<open>
  Claim C9 as stated fails: a principal with email \<open>alice@example.com\<close> that requested
  no username but the display name \<open>Al\<close> gets the display name \<open>Al\<close>.
\<close>

theorem provisioning_display_name_counterexample:
  "map_of (raw_user_meta_data
      \<lparr> au_id = 4, au_email = Some ''alice@example.com'', raw_user_meta_data = [(''display_name'', ''Al'')] \<rparr>)
      ''username'' = None
   \<and> handle_new_user 8 dm_db
        \<lparr> au_id = 4, au_email = Some ''alice@example.com'', raw_user_meta_data = [(''display_name'', ''Al'')] \<rparr>
     = Inr (dm_db\<lparr>profiles := profiles dm_db @
         [\<lparr> profile_id = 4, username = ''alice'', display_name = Some ''Al'',
            avatar_url = None, status = Some ''online'', last_seen = Some 8,
            profile_created_at = 8, profile_updated_at = 8 \<rparr>]\<rparr>)"
proof -
  have free: "\<not> list_ex (\<lambda>p. profile_id p = 4 \<or> username p = ''alice'') (profiles dm_db)"
    by (simp add: sample_defs)
  then show ?thesis
    by (simp add: handle_new_user_def coalesce_def split_part_alice)
qed

section \<open>Claims about the DM look-up\<close>

lemma bump_keys:
  "map fst (bump k acc) = (if k \<in> fst ` set acc then map fst acc else map fst acc @ [k])"
  by (induction k acc rule: bump.induct) auto

lemma bump_distinct: "distinct (map fst acc) \<Longrightarrow> distinct (map fst (bump k acc))"
  by (simp add: bump_keys)

lemma map_of_bump:
  "map_of (bump k acc) k' =
     (if k' = k then Some (case map_of acc k of None \<Rightarrow> 1 | Some c \<Rightarrow> c + 1) else map_of acc k')"
  by (induction k acc rule: bump.induct) auto

lemma foldl_bump_distinct:
  "distinct (map fst acc) \<Longrightarrow> distinct (map fst (foldl (\<lambda>acc item. bump item acc) acc rows))"
  by (induction rows arbitrary: acc) (simp_all add: bump_distinct)

lemma foldl_bump_map_of:
  "map_of (foldl (\<lambda>acc item. bump item acc) acc rows) k =
     (case map_of acc k of
        None \<Rightarrow> if k \<in> set rows then Some (count_list rows k) else None
      | Some c \<Rightarrow> Some (c + count_list rows k))"
proof (induction rows arbitrary: acc)
  case Nil
  show ?case by (simp split: option.splits)
next
  case (Cons x rows)
  show ?case
    by (simp add: Cons.IH map_of_bump split: option.splits)
qed

lemma conversationCounts_entry:
  "((k, c) \<in> set (conversationCounts rows)) = (k \<in> set rows \<and> c = count_list rows k)"
proof -
  have d: "distinct (map fst (conversationCounts rows))"
    unfolding conversationCounts_def by (rule foldl_bump_distinct) simp
  have m: "map_of (conversationCounts rows) k = (if k \<in> set rows then Some (count_list rows k) else None)"
    unfolding conversationCounts_def by (simp add: foldl_bump_map_of)
  from d have "((k, c) \<in> set (conversationCounts rows)) = (map_of (conversationCounts rows) k = Some c)"
    by simp
  with m show ?thesis by auto
qed

lemma find_SomeD: "find P xs = Some x \<Longrightarrow> P x \<and> x \<in> set xs"
  by (induction xs) (auto split: if_splits)

lemma existingConversationId_found:
  assumes "count_list rows D = 2"
  shows "\<exists>c. existingConversationId (Some rows) = Some c \<and> count_list rows c = 2"
proof -
  have len: "2 \<le> length rows"
    using count_le_length [of rows D] assms by simp
  from assms have "D \<in> set rows"
    using count_list_0_iff [of rows D] by auto
  with assms have "(D, 2) \<in> set (conversationCounts rows)"
    by (simp add: conversationCounts_entry)
  then have "\<exists>kc\<in>set (conversationCounts rows). snd kc = 2" by force
  then obtain k c where f: "find (\<lambda>kc. snd kc = 2) (conversationCounts rows) = Some (k, c)"
    by (cases "find (\<lambda>kc. snd kc = 2) (conversationCounts rows)") (auto simp: find_None_iff)
  then have "(k, c) \<in> set (conversationCounts rows)" and "c = 2"
    using find_SomeD [of "\<lambda>kc. snd kc = 2" "conversationCounts rows" "(k, c)"] by auto
  then have "count_list rows k = 2"
    by (simp add: conversationCounts_entry)
  with f len show ?thesis by (simp add: existingConversationId_def)
qed

lemma count_list_map_filter:
  "count_list (map f (filter R xs)) c = length (filter (\<lambda>x. f x = c \<and> R x) xs)"
  by (induction xs) auto

lemma distinct_key_count:
  "distinct (map key xs) \<Longrightarrow> length (filter (\<lambda>x. key x = v) xs) = (if v \<in> key ` set xs then 1 else 0)"
  by (induction xs) auto

lemma length_filter_either:
  "(\<And>x. \<not> (P x \<and> Q x)) \<Longrightarrow>
     length (filter (\<lambda>x. P x \<or> Q x) xs) = length (filter P xs) + length (filter Q xs)"
  by (induction xs) auto

lemma is_participant_key:
  "is_participant d u c =
     ((c, u) \<in> (\<lambda>cp. (cp_conversation_id cp, cp_user_id cp)) ` set (conversation_participants d))"
  by (auto simp: is_participant_def list_ex_iff)

lemma shared_conversation_count:
  assumes uq: "distinct (map (\<lambda>cp. (cp_conversation_id cp, cp_user_id cp)) (conversation_participants d))"
    and ab: "a \<noteq> b"
  shows "count_list
           (map cp_conversation_id
              (filter (\<lambda>cp. cp_user_id cp \<in> set [a, b])
                 (filter (\<lambda>r. is_participant d a (cp_conversation_id r)) (conversation_participants d))))
           c
         = (if is_participant d a c then 1 + (if is_participant d b c then 1 else 0) else 0)"
proof -
  let ?xs = "conversation_participants d"
  let ?key = "\<lambda>cp. (cp_conversation_id cp, cp_user_id cp)"
  have "count_list (map cp_conversation_id
              (filter (\<lambda>cp. cp_user_id cp \<in> set [a, b])
                 (filter (\<lambda>r. is_participant d a (cp_conversation_id r)) ?xs))) c
      = length (filter (\<lambda>x. cp_conversation_id x = c \<and> cp_user_id x \<in> set [a, b]
                             \<and> is_participant d a (cp_conversation_id x)) ?xs)"
    by (simp add: count_list_map_filter conj_commute)
  also have "\<dots> = (if is_participant d a c
                   then length (filter (\<lambda>x. ?key x = (c, a) \<or> ?key x = (c, b)) ?xs) else 0)"
  proof (cases "is_participant d a c")
    case True
    have "filter (\<lambda>x. cp_conversation_id x = c \<and> cp_user_id x \<in> set [a, b]
                             \<and> is_participant d a (cp_conversation_id x)) ?xs
          = filter (\<lambda>x. ?key x = (c, a) \<or> ?key x = (c, b)) ?xs"
      using True by (intro filter_cong refl) auto
    with True show ?thesis by (simp only: if_True)
  next
    case False
    have "filter (\<lambda>x. cp_conversation_id x = c \<and> cp_user_id x \<in> set [a, b]
                             \<and> is_participant d a (cp_conversation_id x)) ?xs
          = []"
      using False by (auto simp: filter_empty_conv)
    with False show ?thesis by (simp only: if_False list.size)
  qed
  also have "length (filter (\<lambda>x. ?key x = (c, a) \<or> ?key x = (c, b)) ?xs)
      = length (filter (\<lambda>x. ?key x = (c, a)) ?xs) + length (filter (\<lambda>x. ?key x = (c, b)) ?xs)"
    using ab by (intro length_filter_either) auto
  also have "length (filter (\<lambda>x. ?key x = (c, a)) ?xs) = (if is_participant d a c then 1 else 0)"
    using distinct_key_count [OF uq, of "(c, a)"] by (simp add: is_participant_key)
  also have "length (filter (\<lambda>x. ?key x = (c, b)) ?xs) = (if is_participant d b c then 1 else 0)"
    using distinct_key_count [OF uq, of "(c, b)"] by (simp add: is_participant_key)
  finally show ?thesis by simp
qed



text \<open>
  Claim C6: after a DM conversation with participants exactly A and B exists, the
  de-duplication look-up run by A for B returns that conversation's id and no conversation
  is created.

  The look-up counts, per conversation, the rows of A and B that A can read and takes the
  first conversation counted twice ("Find conversation that has both users"): a
  conversation with both principals, whoever else is in it. As amended: when the read of
  participants returns the rows of A's conversations, and A and B (two principals) are both
  participants of D, \<open>createConversation\<close> opens a conversation in which both A and B
  participate and leaves the database as it is; the conversation is D when D is the only
  one they share. The unique constraint on (conversation, user) is assumed of the table.
\<close>

theorem dm_lookup_opens_a_shared_conversation:
  assumes uq: "distinct (map (\<lambda>cp. (cp_conversation_id cp, cp_user_id cp)) (conversation_participants d))"
    and ab: "a \<noteq> b"
    and vis: "select_participants S n d a =
       Some (filter (\<lambda>r. is_participant d a (cp_conversation_id r)) (conversation_participants d))"
    and A: "is_participant d a D" and B: "is_participant d b D"
  shows "\<exists>c. createConversation S n env (Some a) False b d = (Opened_existing c, d)
           \<and> is_participant d a c \<and> is_participant d b c
           \<and> ((\<forall>c'. is_participant d a c' \<and> is_participant d b c' \<longrightarrow> c' = D) \<longrightarrow> c = D)"
proof -
  define rows where "rows = map cp_conversation_id
              (filter (\<lambda>cp. cp_user_id cp \<in> set [a, b])
                 (filter (\<lambda>r. is_participant d a (cp_conversation_id r)) (conversation_participants d)))"
  have fetch: "fetch_existingConv S n d a b = Some rows"
    unfolding rows_def fetch_existingConv_def vis by simp
  have cnt: "count_list rows c = (if is_participant d a c then 1 + (if is_participant d b c then 1 else 0) else 0)" for c
    unfolding rows_def by (rule shared_conversation_count [OF uq ab])
  from A B have "count_list rows D = 2" by (simp add: cnt)
  then obtain c where c: "existingConversationId (Some rows) = Some c" and c2: "count_list rows c = 2"
    using existingConversationId_found by blast
  from c2 have shared: "is_participant d a c \<and> is_participant d b c"
    by (simp add: cnt split: if_splits)
  have "createConversation S n env (Some a) False b d = (Opened_existing c, d)"
    by (simp add: createConversation_def fetch c)
  with shared show ?thesis by blast
qed

text \<open>
  The amended statement for principals 1 and 2 of \<open>dm_db\<close>, whose only shared
  conversation is 10, under the policies of \<open>raspy_spark\<close>.
\<close>

theorem dm_lookup_opens_a_shared_conversation_witness:
  "is_participant dm_db 1 10 \<and> is_participant dm_db 2 10
   \<and> createConversation helper_schema 0 sample_create_env (Some 1) False 2 dm_db
       = (Opened_existing 10, dm_db)"
proof -
  have uq: "distinct (map (\<lambda>cp. (cp_conversation_id cp, cp_user_id cp)) (conversation_participants dm_db))"
    by (simp add: sample_defs)
  have ab: "(1::nat) \<noteq> 2" by simp
  have A: "is_participant dm_db 1 10" and B: "is_participant dm_db 2 10"
    by (simp_all add: is_participant_def sample_defs)
  have only: "\<forall>c'. is_participant dm_db 1 c' \<and> is_participant dm_db 2 c' \<longrightarrow> c' = 10"
    by (simp add: is_participant_def sample_defs)
  from dm_lookup_opens_a_shared_conversation
         [OF uq ab helper_select_participants A B, where env = sample_create_env] only
  have "createConversation helper_schema 0 sample_create_env (Some 1) False 2 dm_db
       = (Opened_existing 10, dm_db)"
    by blast
  with A B show ?thesis by simp
qed

text \<open>
  Claim C6 as stated fails: in \<open>group_then_dm_db\<close> the participants of the DM
  conversation 10 are exactly principals 1 and 2, the rows principal 1 reads list the group
  conversation 20 first, both conversations are counted twice, and the look-up opens 20.
\<close>

theorem dm_lookup_counterexample:
  "map cp_user_id (filter (\<lambda>cp. cp_conversation_id cp = 10) (conversation_participants group_then_dm_db))
     = [1, 2]
   \<and> map c_type (filter (\<lambda>c. c_id c = 10) (conversations group_then_dm_db)) = [Dm]
   \<and> fetch_existingConv helper_schema 0 group_then_dm_db 1 2 = Some [20, 20, 10, 10]
   \<and> conversationCounts [20, 20, 10, 10] = [(20, 2), (10, 2)]
   \<and> createConversation helper_schema 0 sample_create_env (Some 1) False 2 group_then_dm_db
       = (Opened_existing 20, group_then_dm_db)"
proof -
  have fetch: "fetch_existingConv helper_schema 0 group_then_dm_db 1 2 = Some [20, 20, 10, 10]"
    by (simp add: fetch_existingConv_def helper_select_participants is_participant_def sample_defs)
  have counts: "conversationCounts [20, 20, 10, 10] = [(20, 2), (10, 2)]"
    by (simp add: conversationCounts_def)
  have "existingConversationId (Some [20, 20, 10, 10]) = Some 20"
    by (simp add: existingConversationId_def counts)
  then have "createConversation helper_schema 0 sample_create_env (Some 1) False 2 group_then_dm_db
       = (Opened_existing 20, group_then_dm_db)"
    using fetch by (simp add: createConversation_def del: One_nat_def)
  moreover have "map cp_user_id (filter (\<lambda>cp. cp_conversation_id cp = 10) (conversation_participants group_then_dm_db))
     = [1, 2]"
    and "map c_type (filter (\<lambda>c. c_id c = 10) (conversations group_then_dm_db)) = [Dm]"
    by (simp_all add: sample_defs)
  ultimately show ?thesis using fetch counts by simp
qed

end
